theory Spec2Isabelle
  imports Complex_Main
begin

section \<open>Python values used by the scripts\<close>

text \<open>
  A Python \<open>str\<close> is a sequence of Unicode code points.  A code point is modelled as
  \<open>Latin c\<close>, the code point \<open>of_char c\<close> below 256, or as \<open>Beyond n\<close>, the code point
  \<open>256 + n\<close>.  \<open>py ''abc''\<close> is the \<open>str\<close> with the given characters.

  Whitespace (\<open>str.isspace\<close>, \<open>str.strip\<close>, \<open>str.split\<close> and the class \<open>\s\<close>) is
  modelled for every code point.  The word class \<open>\w\<close> and the case mappings are
  modelled for the code points below 256; for a code point from 256 on they are not:
  it is taken as a caseless symbol outside \<open>\w\<close>, and the properties that depend on
  them are stated for text below 256.

  A Python \<open>float\<close> that is finite is a rational number; it is modelled as a \<open>real\<close>.
  For a finite float \<open>x\<close> of magnitude below \<open>2 ^ 53\<close> the results of \<open>x // 60\<close> and
  \<open>x % 60\<close> are exact, so they are modelled by the exact floor division and remainder.
\<close>

datatype codepoint = Latin char | Beyond nat

type_synonym pystr = "codepoint list"

abbreviation py :: "string \<Rightarrow> pystr" where
  "py s \<equiv> map Latin s"

fun code :: "codepoint \<Rightarrow> nat" where
  \<comment> \<open>\<open>ord(c)\<close>\<close>
  "code (Latin c) = of_char c"
| "code (Beyond n) = 256 + n"

datatype error =
    IndexError
  | FileNotFoundError pystr
  | Exception pystr

definition is_space :: "codepoint \<Rightarrow> bool" where
  \<comment> \<open>\<open>str.isspace\<close> of one character, which is also the class \<open>\s\<close>: U+0009 to U+000D,
      U+001C to U+0020, U+0085, U+00A0, U+1680, U+2000 to U+200A, U+2028, U+2029, U+202F,
      U+205F and U+3000\<close>
  "is_space c = (let n = code c in
     (9 \<le> n \<and> n \<le> 13) \<or> (28 \<le> n \<and> n \<le> 32) \<or> n = 133 \<or> n = 160 \<or> n = 5760
     \<or> (8192 \<le> n \<and> n \<le> 8202) \<or> n = 8232 \<or> n = 8233 \<or> n = 8239 \<or> n = 8287
     \<or> n = 12288)"

text \<open>
  The character tests, stated on the bits of a character (least significant first) for
  evaluation.
\<close>

lemma is_space_Latin [code]:
  "is_space (Latin (Char b0 b1 b2 b3 b4 b5 b6 b7)) =
     (\<not> b6 \<and>
      (if b7 then \<not> b4 \<and> \<not> b3 \<and> \<not> b1 \<and> ((b5 \<and> \<not> b2 \<and> \<not> b0) \<or> (\<not> b5 \<and> b2 \<and> b0))
       else if b5 then \<not> b4 \<and> \<not> b3 \<and> \<not> b2 \<and> \<not> b1 \<and> \<not> b0
       else if b4 then b3 \<and> b2
       else b3 \<and> (b0 \<or> b1 \<or> b2) \<and> \<not> (b1 \<and> b2)))"
  by (cases b0; cases b1; cases b2; cases b3; cases b4; cases b5; cases b6; cases b7)
     (simp_all add: is_space_def)

lemma is_space_Beyond [code]:
  "is_space (Beyond n) =
     (n = 5504 \<or> (7936 \<le> n \<and> n \<le> 7946) \<or> n = 7976 \<or> n = 7977 \<or> n = 7983 \<or> n = 8031
      \<or> n = 12032)"
  by (simp add: is_space_def)

definition strip :: "pystr \<Rightarrow> pystr" where
  \<comment> \<open>\<open>s.strip()\<close>\<close>
  "strip s = rev (dropWhile is_space (rev (dropWhile is_space s)))"

fun split_on :: "codepoint \<Rightarrow> pystr \<Rightarrow> pystr list" where
  \<comment> \<open>\<open>s.split(c)\<close> for a separator of one character\<close>
  "split_on c [] = [[]]"
| "split_on c (x # xs) =
     (if x = c then [] # split_on c xs
      else (let r = split_on c xs in (x # hd r) # tl r))"

definition digit_char :: "nat \<Rightarrow> codepoint" where
  "digit_char d = Latin (''0123456789'' ! d)"

fun decimal :: "nat \<Rightarrow> pystr" where
  \<comment> \<open>the decimal digits of a non-negative integer, as \<open>str(n)\<close> gives them\<close>
  "decimal n = (if n < 10 then [digit_char n] else decimal (n div 10) @ [digit_char (n mod 10)])"

declare decimal.simps [simp del]

definition format_02d :: "int \<Rightarrow> pystr" where
  \<comment> \<open>\<open>f"{n:02d}"\<close>: sign-aware zero padding to a minimum width of two\<close>
  "format_02d n =
     (if n < 0 then Latin (CHR ''-'') # decimal (nat (- n))
      else (let d = decimal (nat n) in replicate (2 - length d) (Latin (CHR ''0'')) @ d))"

definition float_floordiv :: "real \<Rightarrow> real \<Rightarrow> real" where
  \<comment> \<open>\<open>x // y\<close> on floats, for \<open>y\<close> positive\<close>
  "float_floordiv x y = of_int \<lfloor>x / y\<rfloor>"

definition float_mod :: "real \<Rightarrow> real \<Rightarrow> real" where
  \<comment> \<open>\<open>x % y\<close> on floats, for \<open>y\<close> positive: the result lies in \<open>[0, y)\<close>\<close>
  "float_mod x y = x - y * of_int \<lfloor>x / y\<rfloor>"

definition py_int :: "real \<Rightarrow> int" where
  \<comment> \<open>\<open>int(x)\<close> on a float: truncation towards zero\<close>
  "py_int x = (if 0 \<le> x then \<lfloor>x\<rfloor> else \<lceil>x\<rceil>)"


section \<open>timestamps.py: the segment-boundary detector\<close>

record segment =
  start :: real
  seg_text :: pystr  \<comment> \<open>the key \<open>'text'\<close>\<close>

record marker =
  time :: pystr
  label :: pystr

definition SIMILARITY_THRESHOLD :: real where
  \<comment> \<open>the value of the float literal \<open>0.65\<close>: the double nearest to 65/100\<close>
  "SIMILARITY_THRESHOLD = 5854679515581645 / 9007199254740992"

definition format_time :: "real \<Rightarrow> pystr" where
  \<comment> \<open>\<open>f"{int(ts // 60):02d}:{int(ts % 60):02d}"\<close>\<close>
  "format_time ts =
     format_02d (py_int (float_floordiv ts 60)) @ py '':''
       @ format_02d (py_int (float_mod ts 60))"

definition make_label :: "pystr \<Rightarrow> pystr" where
  \<comment> \<open>\<open>text.strip().split('.')[0][:60] + "..."\<close>; \<open>split\<close> never returns an empty list\<close>
  "make_label t = take 60 (hd (split_on (Latin (CHR ''.'')) (strip t))) @ py ''...''"

definition make_marker :: "segment \<Rightarrow> marker" where
  "make_marker seg = \<lparr> time = format_time (start seg), label = make_label (seg_text seg) \<rparr>"

text \<open>
  The loop of lines 30 to 44, over the indices still to visit, with the list
  \<open>timestamps\<close> built so far.  \<open>segments[i]\<close> raises \<open>IndexError\<close> out of range;
  \<open>embeddings[i]\<close> and \<open>embeddings[i-1]\<close> are in range for every index of
  \<open>range(len(embeddings))\<close> other than 0.  The similarity function and the threshold
  are parameters.
\<close>

fun timestamps_loop ::
  "real \<Rightarrow> ('e \<Rightarrow> 'e \<Rightarrow> real) \<Rightarrow> segment list \<Rightarrow> 'e list \<Rightarrow> nat list \<Rightarrow> marker list
     \<Rightarrow> error + marker list" where
  "timestamps_loop tau cos_sim segments embeddings [] timestamps = Inr timestamps"
| "timestamps_loop tau cos_sim segments embeddings (i # is) timestamps =
     (if i = 0 then
        (if i < length segments
         then timestamps_loop tau cos_sim segments embeddings is
                (timestamps @ [make_marker (segments ! i)])
         else Inl IndexError)
      else
        (let sim = cos_sim (embeddings ! i) (embeddings ! (i - 1)) in
         if sim < tau then
           (if i < length segments
            then timestamps_loop tau cos_sim segments embeddings is
                   (timestamps @ [make_marker (segments ! i)])
            else Inl IndexError)
         else timestamps_loop tau cos_sim segments embeddings is timestamps))"

definition detect ::
  "real \<Rightarrow> ('e \<Rightarrow> 'e \<Rightarrow> real) \<Rightarrow> segment list \<Rightarrow> 'e list \<Rightarrow> error + marker list" where
  \<comment> \<open>\<open>timestamps = []\<close> followed by \<open>for i in range(len(embeddings))\<close>\<close>
  "detect tau cos_sim segments embeddings =
     timestamps_loop tau cos_sim segments embeddings [0 ..< length embeddings] []"

text \<open>The global variables of the script that the detector reads and writes.\<close>

record 'e script_state =
  st_segments :: "segment list"
  st_embeddings :: "'e list"
  st_timestamps :: "marker list"

definition run_detector ::
  "real \<Rightarrow> ('e \<Rightarrow> 'e \<Rightarrow> real) \<Rightarrow> 'e script_state \<Rightarrow> error + 'e script_state" where
  "run_detector tau cos_sim st =
     (case detect tau cos_sim (st_segments st) (st_embeddings st) of
        Inl e \<Rightarrow> Inl e
      | Inr ts \<Rightarrow> Inr (st\<lparr> st_timestamps := ts \<rparr>))"

definition two_digits :: "nat \<Rightarrow> pystr" where
  \<comment> \<open>a number below 100 written with exactly two decimal digits\<close>
  "two_digits n = [digit_char (n div 10), digit_char (n mod 10)]"

text \<open>The example of the specification: three segments, similarities 0.9 and 0.3.\<close>

definition example_segments :: "segment list" where
  "example_segments =
     [\<lparr>start = 0, seg_text = py ''Intro to loops.''\<rparr>,
      \<lparr>start = 12, seg_text = py ''Still on loops.''\<rparr>,
      \<lparr>start = 40, seg_text = py ''Now let's talk about files.''\<rparr>]"

definition example_embeddings :: "nat list" where
  "example_embeddings = [0, 1, 2]"

definition example_sim :: "nat \<Rightarrow> nat \<Rightarrow> real" where
  "example_sim a b = (if a = 1 \<and> b = 0 then 9 / 10 else 3 / 10)"

definition long_segment :: segment where
  "long_segment = \<lparr>start = 125.5,
     seg_text = py ''  This sentence keeps going for quite a long while without any full stop at all. Then more. ''\<rparr>"

definition empty_segment :: segment where
  "empty_segment = \<lparr>start = 0, seg_text = []\<rparr>"

definition nbsp_segment :: segment where
  \<comment> \<open>a text that starts with U+00A0 and U+3000 and ends with U+0085\<close>
  "nbsp_segment = \<lparr>start = 0,
     seg_text = [Latin (CHR 0xA0), Beyond 12032] @ py ''Hi. There'' @ [Latin (CHR 0x85)]\<rparr>"


section \<open>The regular expressions of main.py\<close>

text \<open>
  The classes and case mappings of the code points below 256, as the Unicode database
  of Python gives them.  \<open>is_word\<close> is the class \<open>\w\<close> (\<open>str.isalnum\<close> or the underscore),
  \<open>lower\<close> the lower case of one character (\<open>str.lower\<close>, and the case folding of
  \<open>re.IGNORECASE\<close>), \<open>upper\<close> and \<open>title\<close> the results of \<open>str.upper\<close> and \<open>str.title\<close>
  on one character: U+00B5 and U+00FF have their upper case beyond 255, and U+00DF
  becomes two characters.
\<close>

definition is_word :: "codepoint \<Rightarrow> bool" where
  "is_word c =
     (case c of
        Latin x \<Rightarrow>
          (let n = (of_char x :: nat) in
           (48 \<le> n \<and> n \<le> 57) \<or> (65 \<le> n \<and> n \<le> 90) \<or> n = 95 \<or> (97 \<le> n \<and> n \<le> 122)
           \<or> n = 170 \<or> n = 178 \<or> n = 179 \<or> n = 181 \<or> n = 185 \<or> n = 186
           \<or> (188 \<le> n \<and> n \<le> 190) \<or> (192 \<le> n \<and> n \<le> 214) \<or> (216 \<le> n \<and> n \<le> 246)
           \<or> 248 \<le> n)
      | Beyond n \<Rightarrow> False)"

definition lower :: "codepoint \<Rightarrow> codepoint" where
  "lower c =
     (case c of
        Latin x \<Rightarrow>
          (let n = (of_char x :: nat) in
           if (65 \<le> n \<and> n \<le> 90) \<or> (192 \<le> n \<and> n \<le> 214) \<or> (216 \<le> n \<and> n \<le> 222)
           then Latin (char_of (n + 32)) else c)
      | Beyond n \<Rightarrow> c)"

definition upper :: "codepoint \<Rightarrow> pystr" where
  "upper c =
     (case c of
        Latin x \<Rightarrow>
          (let n = (of_char x :: nat) in
           if (97 \<le> n \<and> n \<le> 122) \<or> (224 \<le> n \<and> n \<le> 246) \<or> (248 \<le> n \<and> n \<le> 254)
           then [Latin (char_of (n - 32))]
           else if n = 181 then [Beyond 668]
           else if n = 223 then py ''SS''
           else if n = 255 then [Beyond 120]
           else [c])
      | Beyond n \<Rightarrow> [c])"

definition title :: "codepoint \<Rightarrow> pystr" where
  "title c = (if c = Latin (CHR 0xDF) then py ''Ss'' else upper c)"


definition alpha_low :: "bool \<Rightarrow> bool \<Rightarrow> bool \<Rightarrow> bool \<Rightarrow> bool \<Rightarrow> bool" where
  \<comment> \<open>the low five bits of an ASCII letter: 1 to 26\<close>
  "alpha_low b0 b1 b2 b3 b4 =
     (if b4 then \<not> b3 \<or> (\<not> b2 \<and> \<not> (b1 \<and> b0)) else b0 \<or> b1 \<or> b2 \<or> b3)"

definition high_letter :: "bool \<Rightarrow> bool \<Rightarrow> bool \<Rightarrow> bool \<Rightarrow> bool \<Rightarrow> bool" where
  \<comment> \<open>the low five bits of a letter with a case from U+00C0 on: all but 23 and 31\<close>
  "high_letter b0 b1 b2 b3 b4 = (\<not> b4 \<or> \<not> (b0 \<and> b1 \<and> b2))"

lemma is_word_Latin [code]:
  "is_word (Latin (Char b0 b1 b2 b3 b4 b5 b6 b7)) =
     (if b7 then
        (if b6 then \<not> (b4 \<and> \<not> b3 \<and> b2 \<and> b1 \<and> b0)
         else b5 \<and>
           (if b4 then
              (if b3 then (if b2 then \<not> (b1 \<and> b0) else b1 \<noteq> b0)
               else (if b2 then \<not> b1 \<and> b0 else b1))
            else b3 \<and> \<not> b2 \<and> b1 \<and> \<not> b0))
      else
        (if b6 then alpha_low b0 b1 b2 b3 b4 \<or> (\<not> b5 \<and> b4 \<and> b3 \<and> b2 \<and> b1 \<and> b0)
         else b5 \<and> b4 \<and> (\<not> b3 \<or> (\<not> b2 \<and> \<not> b1))))"
  by (cases b0; cases b1; cases b2; cases b3; cases b4; cases b5; cases b6; cases b7)
     (simp_all add: is_word_def alpha_low_def)

lemma is_word_Beyond [code]: "is_word (Beyond n) = False"
  by (simp add: is_word_def)

lemma lower_Latin [code]:
  "lower (Latin (Char b0 b1 b2 b3 b4 b5 b6 b7)) =
     (if b6 \<and> \<not> b5 \<and> (if b7 then high_letter b0 b1 b2 b3 b4 else alpha_low b0 b1 b2 b3 b4)
      then Latin (Char b0 b1 b2 b3 b4 True b6 b7) else Latin (Char b0 b1 b2 b3 b4 b5 b6 b7))"
  by (cases b0; cases b1; cases b2; cases b3; cases b4; cases b5; cases b6; cases b7)
     (simp_all add: lower_def alpha_low_def high_letter_def char_of_eq_iff)

lemma lower_Beyond [code]: "lower (Beyond n) = Beyond n"
  by (simp add: lower_def)

lemma upper_Latin [code]:
  "upper (Latin (Char b0 b1 b2 b3 b4 b5 b6 b7)) =
     (if b6 \<and> b5 \<and> (if b7 then high_letter b0 b1 b2 b3 b4 else alpha_low b0 b1 b2 b3 b4)
      then [Latin (Char b0 b1 b2 b3 b4 False b6 b7)]
      else if b7 \<and> b0 \<and> b2 \<and> b4 \<and> \<not> b1 \<and> \<not> b3 \<and> b5 \<and> \<not> b6 then [Beyond 668]
      else if b7 \<and> b6 \<and> b4 \<and> b3 \<and> b2 \<and> b1 \<and> b0
        then (if b5 then [Beyond 120] else py ''SS'')
      else [Latin (Char b0 b1 b2 b3 b4 b5 b6 b7)])"
  by (cases b0; cases b1; cases b2; cases b3; cases b4; cases b5; cases b6; cases b7)
     (simp_all add: upper_def alpha_low_def high_letter_def char_of_eq_iff)

lemma upper_Beyond [code]: "upper (Beyond n) = [Beyond n]"
  by (simp add: upper_def)

text \<open>
  The syntax of the patterns the module uses.  \<open>Behind cs\<close> is the lookbehind
  \<open>(?<=[cs])\<close> for one character of a set, \<open>Plus\<close> the greedy \<open>+\<close>, \<open>Group n\<close> the
  \<open>n\<close>-th capturing group and \<open>Backref n\<close> the reference \<open>\n\<close>.
\<close>

datatype regex =
    Eps
  | Lit codepoint
  | Word
  | Space
  | OneOf pystr
  | Boundary
  | Behind pystr
  | Seq regex regex
  | Alt regex regex
  | Plus regex
  | Group nat regex
  | Backref nat

text \<open>
  A position of the matcher in the subject: the text to its left (nearest character
  first), the text from it on, and the groups captured so far (latest first).
\<close>

record mstate =
  seen :: pystr
  rest :: pystr
  groups :: "(nat \<times> pystr) list"

definition step_char :: "(codepoint \<Rightarrow> bool) \<Rightarrow> mstate \<Rightarrow> mstate list" where
  "step_char p st =
     (case rest st of
        [] \<Rightarrow> []
      | c # cs \<Rightarrow> if p c then [st\<lparr>seen := c # seen st, rest := cs\<rparr>] else [])"

definition at_boundary :: "mstate \<Rightarrow> bool" where
  \<comment> \<open>\<open>\b\<close>: exactly one of the two neighbours is a word character\<close>
  "at_boundary st =
     ((case seen st of [] \<Rightarrow> False | c # _ \<Rightarrow> is_word c)
        \<noteq> (case rest st of [] \<Rightarrow> False | c # _ \<Rightarrow> is_word c))"

definition same_text :: "bool \<Rightarrow> pystr \<Rightarrow> pystr \<Rightarrow> bool" where
  \<comment> \<open>a back-reference compares character by character, by lower case under \<open>re.IGNORECASE\<close>\<close>
  "same_text ic a b = (if ic then map lower a = map lower b else a = b)"

definition advance :: "nat \<Rightarrow> mstate \<Rightarrow> mstate" where
  "advance n st = st\<lparr>seen := rev (take n (rest st)) @ seen st, rest := drop n (rest st)\<rparr>"

text \<open>
  One more round of a greedy repetition: after each way to match the body once, first
  the longer matches, then this one.  A round that consumes nothing ends the repetition.
\<close>

fun plus_iter :: "(mstate \<Rightarrow> mstate list) \<Rightarrow> nat \<Rightarrow> mstate \<Rightarrow> mstate list" where
  "plus_iter f 0 st = []"
| "plus_iter f (Suc n) st =
     concat (map (\<lambda>s1. (if length (rest s1) < length (rest st) then plus_iter f n s1 else []) @ [s1])
               (f st))"

text \<open>
  All the ways to match a pattern at a position, in the order in which the
  backtracking matcher of \<open>re\<close> tries them; the first is the match it reports.  The flag
  is \<open>re.IGNORECASE\<close>.
\<close>

fun matches :: "bool \<Rightarrow> regex \<Rightarrow> mstate \<Rightarrow> mstate list" where
  "matches ic Eps st = [st]"
| "matches ic (Lit c) st = step_char (\<lambda>x. if ic then lower x = lower c else x = c) st"
| "matches ic Word st = step_char is_word st"
| "matches ic Space st = step_char is_space st"
| "matches ic (OneOf cs) st =
     step_char (\<lambda>x. if ic then lower x \<in> set (map lower cs) else x \<in> set cs) st"
| "matches ic Boundary st = (if at_boundary st then [st] else [])"
| "matches ic (Behind cs) st =
     (case seen st of [] \<Rightarrow> [] | c # _ \<Rightarrow> if c \<in> set cs then [st] else [])"
| "matches ic (Seq r1 r2) st = concat (map (\<lambda>s. matches ic r2 s) (matches ic r1 st))"
| "matches ic (Alt r1 r2) st = matches ic r1 st @ matches ic r2 st"
| "matches ic (Plus r) st = plus_iter (\<lambda>s. matches ic r s) (Suc (length (rest st))) st"
| "matches ic (Group n r) st =
     map (\<lambda>s. s\<lparr>groups := (n, take (length (rest st) - length (rest s)) (rest st)) # groups s\<rparr>)
       (matches ic r st)"
| "matches ic (Backref n) st =
     (case map_of (groups st) n of
        None \<Rightarrow> []
      | Some g \<Rightarrow>
          if same_text ic g (take (length g) (rest st)) then [advance (length g) st] else [])"

definition match_here ::
  "bool \<Rightarrow> regex \<Rightarrow> pystr \<Rightarrow> pystr \<Rightarrow> bool \<Rightarrow> (nat \<times> (nat \<times> pystr) list) option" where
  \<comment> \<open>the match at one position: its length and groups; \<open>adv\<close> refuses an empty match\<close>
  "match_here ic re bef rst adv =
     (let found = matches ic re \<lparr>seen = bef, rest = rst, groups = []\<rparr>;
          allowed = (if adv then filter (\<lambda>s. length (rest s) < length rst) found else found)
      in case allowed of
           [] \<Rightarrow> None
         | s # _ \<Rightarrow> Some (length rst - length (rest s), groups s))"

text \<open>
  The search of \<open>re\<close> for the leftmost match: the number of characters skipped, the
  length of the match and its groups.  The condition \<open>adv\<close> (a match must not be empty)
  holds for the first position only.
\<close>

fun search ::
  "bool \<Rightarrow> regex \<Rightarrow> pystr \<Rightarrow> pystr \<Rightarrow> bool
     \<Rightarrow> (nat \<times> nat \<times> (nat \<times> pystr) list) option" where
  "search ic re bef [] adv =
     (case match_here ic re bef [] adv of
        Some (n, g) \<Rightarrow> Some (0, n, g)
      | None \<Rightarrow> None)"
| "search ic re bef (c # cs) adv =
     (case match_here ic re bef (c # cs) adv of
        Some (n, g) \<Rightarrow> Some (0, n, g)
      | None \<Rightarrow>
          (case search ic re (c # bef) cs False of
             None \<Rightarrow> None
           | Some (k, n, g) \<Rightarrow> Some (Suc k, n, g)))"

lemma match_here_le: "match_here ic re bef rst adv = Some (n, g) \<Longrightarrow> n \<le> length rst"
  by (auto simp: match_here_def Let_def split: list.splits if_splits)

lemma match_here_adv: "match_here ic re bef rst True = Some (n, g) \<Longrightarrow> 0 < n"
proof -
  assume a: "match_here ic re bef rst True = Some (n, g)"
  let ?found = "matches ic re \<lparr>seen = bef, rest = rst, groups = []\<rparr>"
  let ?allowed = "filter (\<lambda>s. length (rest s) < length rst) ?found"
  from a obtain s ss where sl: "?allowed = s # ss" and n: "n = length rst - length (rest s)"
    by (auto simp: match_here_def Let_def split: list.splits)
  have "s \<in> set ?allowed" using sl by simp
  then have "length (rest s) < length rst" by simp
  then show ?thesis using n by simp
qed

lemma search_le: "search ic re bef rst adv = Some (k, n, g) \<Longrightarrow> k + n \<le> length rst"
proof (induction rst arbitrary: bef adv k)
  case Nil
  then show ?case by (auto split: option.splits dest: match_here_le)
next
  case (Cons c cs)
  show ?case
  proof (cases "match_here ic re bef (c # cs) adv")
    case (Some a)
    then show ?thesis using Cons.prems match_here_le [of ic re bef "c # cs" adv] by (cases a) auto
  next
    case None
    then obtain k' where s: "search ic re (c # bef) cs False = Some (k', n, g)" and k: "k = Suc k'"
      using Cons.prems by (auto split: option.splits)
    from Cons.IH [OF s] k show ?thesis by simp
  qed
qed

lemma search_adv: "search ic re bef rst True = Some (0, n, g) \<Longrightarrow> 0 < n"
  by (cases rst) (auto split: option.splits dest: match_here_adv)

text \<open>
  The loop shared by \<open>re.sub\<close> and \<open>re.split\<close>: the successive matches, each with the
  text skipped before it, and the text after the last match.  After an empty match the
  next search must not return an empty match at the same position.
\<close>

function find_all ::
  "bool \<Rightarrow> regex \<Rightarrow> pystr \<Rightarrow> pystr \<Rightarrow> bool \<Rightarrow> (pystr \<times> (nat \<times> pystr) list) list \<times> pystr" where
  "find_all ic re bef rst adv =
     (case search ic re bef rst adv of
        None \<Rightarrow> ([], rst)
      | Some (k, n, g) \<Rightarrow>
          (case find_all ic re (rev (take (k + n) rst) @ bef) (drop (k + n) rst) (n = 0) of
             (ms, tail) \<Rightarrow> ((take k rst, g) # ms, tail)))"
  by pat_completeness auto
termination
proof (relation "measure (\<lambda>(ic, re, bef, rst, adv). 2 * length rst + (if adv then 0 else 1))", goal_cases)
  case 1
  show ?case by simp
next
  case (2 ic re bef rst adv x2 k y n g)
  then have s: "search ic re bef rst adv = Some (k, n, g)" by simp
  from search_le [OF s] have le: "k + n \<le> length rst" .
  show ?case
  proof (cases "k + n = 0")
    case True
    then have "\<not> adv" using s search_adv [of ic re bef rst n g] by auto
    then show ?thesis using True by simp
  next
    case False
    then show ?thesis using le by auto
  qed
qed

text \<open>
  A replacement template: literal text and group references \<open>\n\<close>.  A group that
  took no part in the match expands to the empty string.
\<close>

datatype repl_item = RText pystr | RGroup nat

definition expand :: "repl_item list \<Rightarrow> (nat \<times> pystr) list \<Rightarrow> pystr" where
  "expand repl g =
     concat (map (\<lambda>it. case it of
                          RText t \<Rightarrow> t
                        | RGroup n \<Rightarrow> (case map_of g n of None \<Rightarrow> [] | Some t \<Rightarrow> t)) repl)"

definition re_sub :: "bool \<Rightarrow> regex \<Rightarrow> repl_item list \<Rightarrow> pystr \<Rightarrow> pystr" where
  \<comment> \<open>\<open>re.sub(pattern, repl, s)\<close>, with \<open>flags=re.IGNORECASE\<close> when \<open>ic\<close> holds\<close>
  "re_sub ic re repl s =
     (case find_all ic re [] s False of
        (ms, tail) \<Rightarrow> concat (map (\<lambda>(gap, g). gap @ expand repl g) ms) @ tail)"

definition re_split :: "regex \<Rightarrow> pystr \<Rightarrow> pystr list" where
  \<comment> \<open>\<open>re.split(pattern, s)\<close> for a pattern without capturing groups\<close>
  "re_split re s = (case find_all False re [] s False of (ms, tail) \<Rightarrow> map fst ms @ [tail])"

definition seq :: "regex list \<Rightarrow> regex" where
  \<comment> \<open>the concatenation of a list of patterns\<close>
  "seq rs = foldr Seq rs Eps"

definition literal :: "string \<Rightarrow> regex" where
  \<comment> \<open>a pattern of ordinary characters\<close>
  "literal s = seq (map (\<lambda>c. Lit (Latin c)) s)"

definition whole_word :: "string \<Rightarrow> regex" where
  \<comment> \<open>\<open>\bs\b\<close>\<close>
  "whole_word s = seq [Boundary, literal s, Boundary]"

text \<open>
  The dictionary \<open>correction_patterns\<close>, in the order of the source: each pattern
  \<open>\bWORDS\b\<close> with its replacement, then \<open>\b(\w+) (\w+) (?:OUT|EDIATELY)\b\<close> with
  \<open>\1 \2\<close> and \<open>\b(\w+)\s+\1\b\<close> with \<open>\1\<close>.
\<close>

definition correction_patterns :: "(regex \<times> repl_item list) list" where
  "correction_patterns =
     [(whole_word ''PITON'', [RText (py ''Python'')]),
      (whole_word ''PYTHEN'', [RText (py ''Python'')]),
      (whole_word ''PIE CHARM'', [RText (py ''PyCharm'')]),
      (whole_word ''GUGAL'', [RText (py ''Google'')]),
      (whole_word ''VERABLES'', [RText (py ''variables'')]),
      (whole_word ''COTE EDITOR'', [RText (py ''code editor'')]),
      (whole_word ''SHONGYUHAIVIN'', [RText (py ''showing you how to'')]),
      (whole_word ''CA SENSITIVE'', [RText (py ''case sensitive'')]),
      (whole_word ''OPEN SAUCE'', [RText (py ''open source'')]),
      (seq [Boundary, Group 1 (Plus Word), Lit (Latin (CHR '' '')), Group 2 (Plus Word),
            Lit (Latin (CHR '' '')),
            Alt (literal ''OUT'') (literal ''EDIATELY''), Boundary],
       [RGroup 1, RText (py '' ''), RGroup 2]),
      (seq [Boundary, Group 1 (Plus Word), Plus Space, Backref 1, Boundary], [RGroup 1])]"

text \<open>The loop \<open>for pattern, replacement in correction_patterns.items()\<close>.\<close>

fun apply_corrections :: "(regex \<times> repl_item list) list \<Rightarrow> pystr \<Rightarrow> pystr" where
  "apply_corrections [] text = text"
| "apply_corrections ((pattern, replacement) # ps) text =
     apply_corrections ps (re_sub True pattern replacement text)"

definition sentence_gap :: regex where
  \<comment> \<open>\<open>(?<=[.!?])\s+\<close>\<close>
  "sentence_gap = seq [Behind (py ''.!?''), Plus Space]"

definition capitalize_first :: "pystr \<Rightarrow> pystr" where
  \<comment> \<open>\<open>sentence[0].upper() + sentence[1:] if sentence else ""\<close>\<close>
  "capitalize_first sentence = (case sentence of [] \<Rightarrow> [] | c # cs \<Rightarrow> upper c @ cs)"

fun join :: "pystr \<Rightarrow> pystr list \<Rightarrow> pystr" where
  \<comment> \<open>\<open>sep.join(xs)\<close>\<close>
  "join sep [] = []"
| "join sep [x] = x"
| "join sep (x # y # ys) = x @ sep @ join sep (y # ys)"

definition fix_punctuation :: "pystr \<Rightarrow> pystr" where
  \<comment> \<open>\<open>re.sub(r'\s+([.,!?])', r'\1', text)\<close>, then \<open>re.sub(r'([.,!?])(\w)', r'\1 \2', text)\<close>\<close>
  "fix_punctuation text =
     re_sub False (seq [Group 1 (OneOf (py ''.,!?'')), Group 2 Word])
         [RGroup 1, RText (py '' ''), RGroup 2]
       (re_sub False (seq [Plus Space, Group 1 (OneOf (py ''.,!?''))]) [RGroup 1] text)"

definition capitalize_sentences :: "pystr \<Rightarrow> pystr" where
  \<comment> \<open>split after a sentence end, upper-case each first character, join with a space\<close>
  "capitalize_sentences text = join (py '' '') (map capitalize_first (re_split sentence_gap text))"

text \<open>
  \<open>_correct_transcript\<close>, with the table of corrections as a parameter; the method
  itself uses \<open>correction_patterns\<close>.  A dictionary is iterated in the order in which
  its entries are written.
\<close>

definition correct_transcript_with :: "(regex \<times> repl_item list) list \<Rightarrow> pystr \<Rightarrow> pystr" where
  "correct_transcript_with table text =
     capitalize_sentences (fix_punctuation (apply_corrections table text))"

definition correct_transcript :: "pystr \<Rightarrow> pystr" where
  "correct_transcript text = correct_transcript_with correction_patterns text"


section \<open>main.py: the pipeline\<close>

text \<open>
  \<open>s.split()\<close>: the maximal runs of characters that are not whitespace.  The first
  argument is the word read so far.
\<close>

fun split_ws_from :: "pystr \<Rightarrow> pystr \<Rightarrow> pystr list" where
  "split_ws_from word [] = (if word = [] then [] else [word])"
| "split_ws_from word (c # cs) =
     (if is_space c then (if word = [] then split_ws_from [] cs else word # split_ws_from [] cs)
      else split_ws_from (word @ [c]) cs)"

definition split_ws :: "pystr \<Rightarrow> pystr list" where
  "split_ws s = split_ws_from [] s"

definition capitalize :: "pystr \<Rightarrow> pystr" where
  \<comment> \<open>\<open>s.capitalize()\<close>\<close>
  "capitalize s = (case s of [] \<Rightarrow> [] | c # cs \<Rightarrow> title c @ map lower cs)"

definition clean_summary :: "pystr \<Rightarrow> pystr" where
  \<comment> \<open>\<open>re.sub(r'\b(\w+)\s+\1\b', r'\1', summary).capitalize()\<close>\<close>
  "clean_summary summary =
     capitalize (re_sub False (seq [Boundary, Group 1 (Plus Word), Plus Space, Backref 1, Boundary])
                   [RGroup 1] summary)"

definition fallback_summary :: "pystr \<Rightarrow> pystr" where
  \<comment> \<open>the first three sentences of more than five words, joined with a space\<close>
  "fallback_summary text =
     (let sentences = re_split sentence_gap text;
          key_sentences = filter (\<lambda>s. 5 < length (split_ws s)) sentences
      in join (py '' '') (take 3 key_sentences))"

text \<open>
  The external collaborators are parameters of a run: for each, what it does when it
  is called.  \<open>write_audiofile\<close> stands for \<open>VideoFileClip(video_path)\<close> followed by
  \<open>video.audio.write_audiofile\<close>: it completes, and the audio file exists, or it raises,
  and the file it was writing exists by then or does not.  \<open>asr_pipeline\<close> stands for
  \<open>self.asr_pipeline(audio_path)["text"]\<close> and \<open>summarizer\<close> for
  \<open>self.summarizer(text, max_length, min_length, ...)[0]["summary_text"]\<close>: each returns
  a text or raises.

  The world of a run is the set of files that exist, the lines printed, and the calls
  made to the collaborators, in order.
\<close>

datatype written =
    Written
  | Failed error bool  \<comment> \<open>the exception, and whether the output file exists\<close>

datatype call =
    ExtractAudio pystr
  | Transcribe pystr
  | Summarize pystr int int

record env =
  write_audiofile :: "pystr \<Rightarrow> written"
  asr_pipeline :: "pystr \<Rightarrow> error + pystr"
  summarizer :: "pystr \<Rightarrow> int \<Rightarrow> int \<Rightarrow> error + pystr"

record world =
  files :: "pystr set"
  console :: "pystr list"
  calls :: "call list"

fun str :: "error \<Rightarrow> pystr" where
  \<comment> \<open>the text of an exception in \<open>f"... {e}"\<close>\<close>
  "str IndexError = py ''list index out of range''"
| "str (FileNotFoundError m) = m"
| "str (Exception m) = m"

definition print :: "pystr \<Rightarrow> world \<Rightarrow> world" where
  "print line w = w\<lparr>console := console w @ [line]\<rparr>"

definition called :: "call \<Rightarrow> world \<Rightarrow> world" where
  "called c w = w\<lparr>calls := calls w @ [c]\<rparr>"

definition extract_audio :: "env \<Rightarrow> pystr \<Rightarrow> world \<Rightarrow> pystr option \<times> world" where
  "extract_audio e video_path w =
     (let audio_path = py ''temp_audio.wav'' in
      case write_audiofile e video_path of
        Written \<Rightarrow>
          (Some audio_path, (called (ExtractAudio video_path) w)\<lparr>files := insert audio_path (files w)\<rparr>)
      | Failed ex left \<Rightarrow>
          (None,
           print (py ''Audio extraction failed: '' @ str ex)
             ((called (ExtractAudio video_path) w)
                \<lparr>files := (if left then insert audio_path (files w) else files w)\<rparr>)))"

definition transcribe_audio :: "env \<Rightarrow> pystr \<Rightarrow> world \<Rightarrow> pystr option \<times> world" where
  "transcribe_audio e audio_path w =
     (case asr_pipeline e audio_path of
        Inr raw_text \<Rightarrow> (Some (correct_transcript raw_text), called (Transcribe audio_path) w)
      | Inl ex \<Rightarrow>
          (None, print (py ''Transcription failed: '' @ str ex) (called (Transcribe audio_path) w)))"

definition max_length :: "int \<Rightarrow> int" where
  \<comment> \<open>\<open>max_len = min(130, max(50, word_count//4))\<close>\<close>
  "max_length word_count = min 130 (max 50 (word_count div 4))"

definition min_length :: "int \<Rightarrow> int" where
  \<comment> \<open>\<open>min_len = min(30, max_len//2)\<close>\<close>
  "min_length word_count = min 30 (max_length word_count div 2)"

definition summarize_text :: "env \<Rightarrow> pystr \<Rightarrow> world \<Rightarrow> pystr \<times> world" where
  "summarize_text e text w =
     (if text = [] \<or> int (length (split_ws text)) < 50 then (text, w)
      else
        (let word_count = int (length (split_ws text));
             max_len = max_length word_count;
             min_len = min_length word_count;
             w1 = called (Summarize text max_len min_len) w
         in case summarizer e text max_len min_len of
              Inr summary_text \<Rightarrow> (clean_summary summary_text, w1)
            | Inl ex \<Rightarrow>
                (fallback_summary text, print (py ''Summarization failed: '' @ str ex) w1)))"

definition os_remove :: "pystr \<Rightarrow> world \<Rightarrow> error + world" where
  \<comment> \<open>\<open>os.remove(path)\<close> raises when the file does not exist\<close>
  "os_remove path w =
     (if path \<in> files w then Inr (w\<lparr>files := files w - {path}\<rparr>)
      else Inl (FileNotFoundError path))"

record result =
  transcription :: pystr
  summary :: pystr

text \<open>
  \<open>summarize_video\<close>.  \<open>not x\<close> holds of \<open>None\<close> and of the empty string.  An
  exception of \<open>os.remove\<close> is not caught.
\<close>

definition summarize_video :: "env \<Rightarrow> pystr \<Rightarrow> world \<Rightarrow> (error + result option) \<times> world" where
  "summarize_video e video_path w =
     (let w1 = print (Latin (CHR 0x0A) # py ''Starting video processing...'') w;
          w2 = print (Latin (CHR 0x0A) # py ''1. Extracting audio...'') w1
      in case extract_audio e video_path w2 of
           (None, w3) \<Rightarrow> (Inr None, w3)
         | (Some audio_file, w3) \<Rightarrow>
             if audio_file = [] then (Inr None, w3)
             else
               (let w4 = print (Latin (CHR 0x0A)
                           # py ''2. Transcribing audio (this may take a while)...'') w3
                in case transcribe_audio e audio_file w4 of
                     (transcript, w5) \<Rightarrow>
                       (case os_remove audio_file w5 of
                          Inl ex \<Rightarrow> (Inl ex, w5)
                        | Inr w6 \<Rightarrow>
                            (case transcript of
                               None \<Rightarrow> (Inr None, w6)
                             | Some t \<Rightarrow>
                                 if t = [] then (Inr None, w6)
                                 else
                                   (let w7 = print (Latin (CHR 0x0A)
                                               # py ''3. Generating summary...'') w6
                                    in case summarize_text e t w7 of
                                         (digest, w8) \<Rightarrow>
                                           (Inr (Some \<lparr>transcription = t, summary = digest\<rparr>),
                                            w8))))))"

text \<open>Example runs: what the three external calls do, and an initial world.\<close>

definition example_env :: "written \<Rightarrow> error + pystr \<Rightarrow> error + pystr \<Rightarrow> env" where
  "example_env audio speech digest =
     \<lparr>write_audiofile = (\<lambda>_. audio), asr_pipeline = (\<lambda>_. speech),
      summarizer = (\<lambda>_ _ _. digest)\<rparr>"

definition world0 :: world where
  "world0 = \<lparr>files = {}, console = [], calls = []\<rparr>"

definition short_speech :: pystr where
  "short_speech = py ''this is piton .it is open sauce''"

definition long_speech :: pystr where
  \<comment> \<open>fifty words\<close>
  "long_speech = py ''a b c d e f g h i j k l m n o p q r s t u v w x y z a b c d e f g h i j k l m n o p q r s t u v w x''"

definition long_transcript :: pystr where
  "long_transcript = py ''A b c d e f g h i j k l m n o p q r s t u v w x y z a b c d e f g h i j k l m n o p q r s t u v w x''"

definition nbsp_text :: pystr where
  \<comment> \<open>fifty words, separated by U+00A0\<close>
  "nbsp_text = concat (replicate 49 [Latin (CHR ''a''), Latin (CHR 0xA0)]) @ py ''a''"



section \<open>Properties of the detector\<close>

lemma timestamps_loop_eq:
  "\<forall>i\<in>set is. i < length segments \<Longrightarrow>
   timestamps_loop tau cos_sim segments embeddings is acc =
     Inr (acc @ map (\<lambda>i. make_marker (segments ! i))
        (filter (\<lambda>i. i = 0 \<or> cos_sim (embeddings ! i) (embeddings ! (i - 1)) < tau) is))"
  by (induction "is" arbitrary: acc) (auto simp: Let_def)

lemma detect_eq:
  assumes "length embeddings \<le> length segments"
  shows "detect tau cos_sim segments embeddings =
     Inr (map (\<lambda>i. make_marker (segments ! i))
        (filter (\<lambda>i. i = 0 \<or> cos_sim (embeddings ! i) (embeddings ! (i - 1)) < tau)
           [0 ..< length embeddings]))"
  using assms unfolding detect_def by (subst timestamps_loop_eq) auto

lemma upt_0_Cons: "0 < n \<Longrightarrow> [0 ..< n] = 0 # [1 ..< n]"
  by (simp add: upt_conv_Cons)

lemma example_detect:
  "detect SIMILARITY_THRESHOLD example_sim example_segments example_embeddings =
     Inr [\<lparr>time = py ''00:00'', label = py ''Intro to loops...''\<rparr>,
          \<lparr>time = py ''00:40'', label = py ''Now let's talk about files...''\<rparr>]"
  by code_simp

text \<open>
  C1.  For \<open>N \<ge> 1\<close> segments with their embeddings the detector returns a list of
  between 1 and \<open>N\<close> markers, and the first marker of the list is the marker of
  segment 0.
\<close>

theorem detector_marker_count:
  assumes "length embeddings = length segments" and "segments \<noteq> []"
  shows "\<exists>ms. detect tau cos_sim segments embeddings = Inr ms
           \<and> 1 \<le> length ms \<and> length ms \<le> length segments
           \<and> ms ! 0 = make_marker (segments ! 0)"
proof -
  let ?keep = "\<lambda>i. i = 0 \<or> cos_sim (embeddings ! i) (embeddings ! (i - 1)) < tau"
  let ?idx = "filter ?keep [0 ..< length embeddings]"
  have n: "0 < length embeddings" using assms by simp
  have idx: "?idx = 0 # filter ?keep [1 ..< length embeddings]"
    by (subst upt_0_Cons [OF n]) simp
  have "length ?idx \<le> length [0 ..< length embeddings]" by (rule length_filter_le)
  then have le: "length ?idx \<le> length segments" using assms by simp
  have eq: "detect tau cos_sim segments embeddings = Inr (map (\<lambda>i. make_marker (segments ! i)) ?idx)"
    using assms by (intro detect_eq) simp
  have "1 \<le> length (map (\<lambda>i. make_marker (segments ! i)) ?idx)"
    by (subst idx) simp
  moreover have "length (map (\<lambda>i. make_marker (segments ! i)) ?idx) \<le> length segments"
    using le by simp
  moreover have "map (\<lambda>i. make_marker (segments ! i)) ?idx ! 0 = make_marker (segments ! 0)"
    by (subst idx) simp
  ultimately show ?thesis using eq by blast
qed

theorem detector_marker_count_witness:
  "length example_embeddings = length example_segments \<and> example_segments \<noteq> []
   \<and> (\<exists>ms. detect SIMILARITY_THRESHOLD example_sim example_segments example_embeddings = Inr ms
         \<and> 1 \<le> length ms \<and> length ms \<le> length example_segments
         \<and> ms ! 0 = make_marker (example_segments ! 0))"
proof -
  have h1: "length example_embeddings = length example_segments"
    by (simp add: example_embeddings_def example_segments_def)
  have h2: "example_segments \<noteq> []"
    by (simp add: example_segments_def)
  show ?thesis
    using h1 h2 detector_marker_count [OF h1 h2, of SIMILARITY_THRESHOLD example_sim] by simp
qed

text \<open>
  C2.  The markers returned are exactly those of index 0 and of the indices \<open>i \<ge> 1\<close> whose
  similarity \<open>cos_sim (embeddings[i], embeddings[i-1])\<close> is strictly below the threshold,
  in index order: an index \<open>i \<ge> 1\<close> contributes a marker if and only if its similarity
  to its predecessor is below \<open>tau\<close>, and none when the similarity is \<open>tau\<close> or more.
\<close>

theorem detector_boundary_rule:
  assumes "length embeddings = length segments"
  shows "detect tau cos_sim segments embeddings =
     Inr (map (\<lambda>i. make_marker (segments ! i))
        (filter (\<lambda>i. i = 0 \<or> cos_sim (embeddings ! i) (embeddings ! (i - 1)) < tau)
           [0 ..< length segments]))"
  using assms detect_eq [of embeddings segments tau cos_sim] by simp

theorem detector_boundary_rule_witness:
  "length example_embeddings = length example_segments
   \<and> detect SIMILARITY_THRESHOLD example_sim example_segments example_embeddings =
       Inr [make_marker (example_segments ! 0), make_marker (example_segments ! 2)]
   \<and> \<not> example_sim (example_embeddings ! 1) (example_embeddings ! 0) < SIMILARITY_THRESHOLD
   \<and> example_sim (example_embeddings ! 2) (example_embeddings ! 1) < SIMILARITY_THRESHOLD"
proof -
  have h: "length example_embeddings = length example_segments"
    by (simp add: example_embeddings_def example_segments_def)
  have len: "length example_segments = 3"
    by (simp add: example_segments_def)
  have upt: "[0 ..< 3] = [0, 1, 2::nat]"
    by (simp add: upt_rec)
  have sims: "\<not> example_sim (example_embeddings ! 1) (example_embeddings ! 0) < SIMILARITY_THRESHOLD"
    "example_sim (example_embeddings ! 2) (example_embeddings ! 1) < SIMILARITY_THRESHOLD"
    by (simp_all add: example_embeddings_def example_sim_def SIMILARITY_THRESHOLD_def)
  show ?thesis
    using h sims
      detector_boundary_rule [OF h, of SIMILARITY_THRESHOLD example_sim]
    by (simp add: len upt)
qed

text \<open>
  C7.  The detector starts from an empty list and changes neither the segments nor the
  embeddings: a second run on the state the first run leaves returns the same state, so
  the same marker list, and the result does not depend on what the list \<open>timestamps\<close>
  held before.
\<close>

theorem run_detector_idempotent:
  assumes "run_detector tau cos_sim st = Inr st'"
  shows "run_detector tau cos_sim st' = Inr st'
         \<and> run_detector tau cos_sim (st\<lparr>st_timestamps := old\<rparr>) = Inr st'"
  using assms by (auto simp: run_detector_def split: sum.splits)

theorem run_detector_idempotent_witness:
  "run_detector SIMILARITY_THRESHOLD example_sim
      \<lparr>st_segments = example_segments, st_embeddings = example_embeddings, st_timestamps = []\<rparr>
     = Inr \<lparr>st_segments = example_segments, st_embeddings = example_embeddings,
            st_timestamps = [\<lparr>time = py ''00:00'', label = py ''Intro to loops...''\<rparr>,
                             \<lparr>time = py ''00:40'', label = py ''Now let's talk about files...''\<rparr>]\<rparr>
   \<and> run_detector SIMILARITY_THRESHOLD example_sim
      \<lparr>st_segments = example_segments, st_embeddings = example_embeddings,
       st_timestamps = [\<lparr>time = py ''00:00'', label = py ''Intro to loops...''\<rparr>,
                        \<lparr>time = py ''00:40'', label = py ''Now let's talk about files...''\<rparr>]\<rparr>
     = Inr \<lparr>st_segments = example_segments, st_embeddings = example_embeddings,
            st_timestamps = [\<lparr>time = py ''00:00'', label = py ''Intro to loops...''\<rparr>,
                             \<lparr>time = py ''00:40'', label = py ''Now let's talk about files...''\<rparr>]\<rparr>"
proof -
  have h: "run_detector SIMILARITY_THRESHOLD example_sim
      \<lparr>st_segments = example_segments, st_embeddings = example_embeddings, st_timestamps = []\<rparr>
     = Inr \<lparr>st_segments = example_segments, st_embeddings = example_embeddings,
            st_timestamps = [\<lparr>time = py ''00:00'', label = py ''Intro to loops...''\<rparr>,
                             \<lparr>time = py ''00:40'', label = py ''Now let's talk about files...''\<rparr>]\<rparr>"
    by (simp add: run_detector_def example_detect)
  show ?thesis
    using h run_detector_idempotent [OF h] by simp
qed

section \<open>Properties of a marker\<close>

lemma decimal_small: "n < 10 \<Longrightarrow> decimal n = [digit_char n]"
  by (subst decimal.simps) simp

lemma decimal_large: "10 \<le> n \<Longrightarrow> decimal n = decimal (n div 10) @ [digit_char (n mod 10)]"
  by (subst decimal.simps) simp

lemma length_decimal_pos: "0 < length (decimal n)"
  by (subst decimal.simps) simp

lemma length_decimal_large:
  assumes "10 \<le> n" shows "2 \<le> length (decimal n)"
proof -
  have "length (decimal n) = length (decimal (n div 10)) + 1"
    by (subst decimal_large [OF assms]) simp
  then show ?thesis using length_decimal_pos [of "n div 10"] by linarith
qed

lemma format_02d_small:
  assumes "n < 100" shows "format_02d (int n) = two_digits n"
proof (cases "n < 10")
  case True
  then have "decimal n = [digit_char n]" by (rule decimal_small)
  then show ?thesis
    using True by (simp add: format_02d_def two_digits_def digit_char_def)
next
  case False
  with assms have "n div 10 < 10" "10 \<le> n" by auto
  then have "decimal n = [digit_char (n div 10), digit_char (n mod 10)]"
    using decimal_large [of n] decimal_small [of "n div 10"] by simp
  then show ?thesis
    by (simp add: format_02d_def two_digits_def)
qed

lemma format_02d_large: "100 \<le> n \<Longrightarrow> format_02d (int n) = decimal n"
  using length_decimal_large [of n] by (simp add: format_02d_def)

lemma float_mod_range:
  assumes "0 < y" shows "0 \<le> float_mod x y" "float_mod x y < y"
  using floor_divide_lower [OF assms, of x] floor_divide_upper [OF assms, of x]
  by (simp_all add: float_mod_def algebra_simps)

lemma format_time_eq:
  assumes "0 \<le> s"
  shows "format_time s =
     (if s < 6000 then two_digits (nat \<lfloor>s / 60\<rfloor>) else decimal (nat \<lfloor>s / 60\<rfloor>))
       @ py '':'' @ two_digits (nat \<lfloor>s - 60 * of_int \<lfloor>s / 60\<rfloor>\<rfloor>)"
proof -
  let ?m = "\<lfloor>s / 60\<rfloor>"
  let ?r = "\<lfloor>float_mod s 60\<rfloor>"
  have m0: "0 \<le> ?m" using assms by simp
  have r: "0 \<le> ?r" "?r < 60"
    using float_mod_range [of 60 s] by (simp_all add: floor_less_iff)
  have mins: "py_int (float_floordiv s 60) = ?m"
    using m0 by (simp add: float_floordiv_def py_int_def)
  have secs: "py_int (float_mod s 60) = ?r"
    using float_mod_range(1) [of 60 s] by (simp add: py_int_def)
  have "nat ?r < 100" using r by linarith
  then have fs: "format_02d ?r = two_digits (nat ?r)"
    using format_02d_small [of "nat ?r"] r(1) by simp
  have fm: "format_02d ?m = (if s < 6000 then two_digits (nat ?m) else decimal (nat ?m))"
  proof (cases "s < 6000")
    case True
    then have "?m < 100" by (simp add: floor_less_iff)
    then have "nat ?m < 100" by linarith
    then have "format_02d (int (nat ?m)) = two_digits (nat ?m)" by (rule format_02d_small)
    then show ?thesis using True m0 by simp
  next
    case False
    then have "100 \<le> ?m" by (simp add: le_floor_iff)
    then have "100 \<le> nat ?m" by linarith
    then have "format_02d (int (nat ?m)) = decimal (nat ?m)" by (rule format_02d_large)
    then show ?thesis using False m0 by simp
  qed
  show ?thesis
    unfolding format_time_def mins secs fs fm by (simp add: float_mod_def)
qed

lemma split_on_hd: "hd (split_on c s) = takeWhile (\<lambda>x. x \<noteq> c) s"
  by (induction s) (simp_all add: Let_def)

lemma split_on_nonempty: "split_on c s \<noteq> []"
  by (induction s) (simp_all add: Let_def)

lemma make_label_eq:
  "make_label t = take 60 (takeWhile (\<lambda>x. x \<noteq> Latin (CHR ''.'')) (strip t)) @ py ''...''"
  by (simp add: make_label_def split_on_hd)

text \<open>
  C3, as the claim states it: the label is the text itself cut at the first full stop
  and at 60 characters, followed by the ellipsis.  It fails on a text that starts with
  whitespace, which the code strips first.
\<close>

theorem marker_label_unstripped_counterexample:
  "label (make_marker \<lparr>start = 0, seg_text = py '' Hi. There''\<rparr>) = py ''Hi...''
   \<and> take 60 (takeWhile (\<lambda>x. x \<noteq> Latin (CHR ''.'')) (py '' Hi. There'')) @ py ''...'' = py '' Hi...''
   \<and> label (make_marker \<lparr>start = 0, seg_text = py '' Hi. There''\<rparr>)
       \<noteq> take 60 (takeWhile (\<lambda>x. x \<noteq> Latin (CHR ''.'')) (py '' Hi. There'')) @ py ''...''"
  by code_simp

text \<open>
  C3, amended.  The label of a marker is the segment's text with the whitespace at both
  ends stripped, cut before the first full stop and to at most 60 characters, followed
  by the ellipsis \<open>...\<close>; when that first sentence is longer than 60 characters the kept
  prefix has exactly 60 characters, and an empty text gives the ellipsis alone.
\<close>

theorem marker_label_stripped:
  "label (make_marker seg) =
       take 60 (takeWhile (\<lambda>x. x \<noteq> Latin (CHR ''.'')) (strip (seg_text seg))) @ py ''...''
   \<and> length (label (make_marker seg)) \<le> 63
   \<and> (60 < length (takeWhile (\<lambda>x. x \<noteq> Latin (CHR ''.'')) (strip (seg_text seg)))
        \<longrightarrow> length (take 60 (takeWhile (\<lambda>x. x \<noteq> Latin (CHR ''.'')) (strip (seg_text seg)))) = 60)
   \<and> (seg_text seg = [] \<longrightarrow> label (make_marker seg) = py ''...'')"
  by (simp add: make_marker_def make_label_eq strip_def)

theorem marker_label_stripped_witness:
  "label (make_marker long_segment) =
       py ''This sentence keeps going for quite a long while without any...''
   \<and> 60 < length (takeWhile (\<lambda>x. x \<noteq> Latin (CHR ''.'')) (strip (seg_text long_segment)))
   \<and> length (take 60 (takeWhile (\<lambda>x. x \<noteq> Latin (CHR ''.'')) (strip (seg_text long_segment)))) = 60
   \<and> seg_text empty_segment = []
   \<and> label (make_marker empty_segment) = py ''...''
   \<and> label (make_marker nbsp_segment) = py ''Hi...''"
proof -
  have nbsp: "strip (seg_text nbsp_segment) = py ''Hi. There''"
    by (simp add: nbsp_segment_def strip_def is_space_def)
  have n: "label (make_marker nbsp_segment) = py ''Hi...''"
    using marker_label_stripped [of nbsp_segment] by (simp add: nbsp)
  have long: "takeWhile (\<lambda>x. x \<noteq> Latin (CHR ''.'')) (strip (seg_text long_segment)) =
      py ''This sentence keeps going for quite a long while without any full stop at all''"
    by code_simp
  have e: "seg_text empty_segment = []"
    by (simp add: empty_segment_def)
  have l: "label (make_marker long_segment) =
      take 60 (takeWhile (\<lambda>x. x \<noteq> Latin (CHR ''.'')) (strip (seg_text long_segment))) @ py ''...''"
    using marker_label_stripped [of long_segment] by blast
  have "label (make_marker empty_segment) = py ''...''"
    using marker_label_stripped [of empty_segment] e by blast
  then show ?thesis
    using l e n by (simp add: long)
qed

text \<open>
  C4, as the claim states it: both fields have two digits.  From 6000 seconds on the
  minutes take three digits or more.
\<close>

theorem marker_time_three_digits_counterexample:
  "time (make_marker \<lparr>start = 6000, seg_text = py ''Late''\<rparr>) = py ''100:00''
   \<and> length (time (make_marker \<lparr>start = 6000, seg_text = py ''Late''\<rparr>)) \<noteq> 5"
  by code_simp

text \<open>
  C4, amended.  For a start time \<open>s \<ge> 0\<close> the time of a marker is the minutes
  \<open>floor (s / 60)\<close>, a colon and the seconds \<open>floor (s mod 60)\<close>; the seconds are written
  with exactly two digits, zero-padded, and so are the minutes when \<open>s < 6000\<close>; from
  6000 seconds on the minutes are written with all their decimal digits.
\<close>

theorem marker_time_format:
  assumes "0 \<le> start seg"
  shows "time (make_marker seg) =
     (if start seg < 6000 then two_digits (nat \<lfloor>start seg / 60\<rfloor>)
      else decimal (nat \<lfloor>start seg / 60\<rfloor>))
       @ py '':'' @ two_digits (nat \<lfloor>start seg - 60 * of_int \<lfloor>start seg / 60\<rfloor>\<rfloor>)"
  using format_time_eq [OF assms] by (simp add: make_marker_def)

theorem marker_time_format_witness:
  "0 \<le> start long_segment \<and> time (make_marker long_segment) = py ''02:05''"
proof -
  have h: "0 \<le> start long_segment"
    by (simp add: long_segment_def)
  have s: "start long_segment = 251 / 2"
    by (simp add: long_segment_def)
  show ?thesis
    using h marker_time_format [OF h]
    by (simp add: s two_digits_def digit_char_def)
qed

section \<open>The fuel of a repetition is enough\<close>

text \<open>
  No match moves to the left, so a repetition runs for at most one round per character
  of the text that is left, and one more that consumes nothing: more fuel than
  \<open>matches\<close> gives changes no result.
\<close>

lemma plus_iter_rest:
  assumes f: "\<And>s s'. s' \<in> set (f s) \<Longrightarrow> length (rest s') \<le> length (rest s)"
  shows "s' \<in> set (plus_iter f n st) \<Longrightarrow> length (rest s') \<le> length (rest st)"
proof (induction n arbitrary: st)
  case 0
  then show ?case by simp
next
  case (Suc n)
  then obtain s1 where s1: "s1 \<in> set (f st)"
    and s': "s' = s1 \<or> (length (rest s1) < length (rest st) \<and> s' \<in> set (plus_iter f n s1))"
    by (auto split: if_splits)
  from s' show ?case
  proof
    assume "s' = s1"
    then show ?thesis using f [OF s1] by simp
  next
    assume "length (rest s1) < length (rest st) \<and> s' \<in> set (plus_iter f n s1)"
    then show ?thesis using Suc.IH [of s1] by simp
  qed
qed

lemma step_char_rest:
  "s' \<in> set (step_char p st) \<Longrightarrow> length (rest s') \<le> length (rest st)"
  by (cases "rest st") (auto simp: step_char_def split: if_splits)

lemma matches_rest: "s' \<in> set (matches ic r st) \<Longrightarrow> length (rest s') \<le> length (rest st)"
proof (induction r arbitrary: st s')
  case (Seq r1 r2)
  then obtain s where "s \<in> set (matches ic r1 st)" "s' \<in> set (matches ic r2 s)"
    by auto
  then show ?case using Seq.IH(1) [of s st] Seq.IH(2) [of s' s] by simp
next
  case (Plus r)
  from Plus.prems
  have "s' \<in> set (plus_iter (\<lambda>s. matches ic r s) (Suc (length (rest st))) st)"
    by (simp only: matches.simps)
  then show ?case
    by (rule plus_iter_rest [rotated]) (rule Plus.IH)
next
  case (Group n r)
  then show ?case by fastforce
qed (auto simp: advance_def dest: step_char_rest split: list.splits if_splits option.splits)

lemma plus_iter_fuel:
  assumes f: "\<And>s s'. s' \<in> set (f s) \<Longrightarrow> length (rest s') \<le> length (rest s)"
  shows "length (rest st) < n \<Longrightarrow> plus_iter f (Suc n) st = plus_iter f n st"
proof (induction n arbitrary: st)
  case 0
  then show ?case by simp
next
  case (Suc n)
  have eq: "plus_iter f (Suc n) s1 = plus_iter f n s1"
    if "length (rest s1) < length (rest st)" for s1
    using that Suc.prems by (intro Suc.IH) simp
  have "plus_iter f (Suc (Suc n)) st =
      concat (map (\<lambda>s1. (if length (rest s1) < length (rest st)
                           then plus_iter f (Suc n) s1 else []) @ [s1]) (f st))"
    by (simp only: plus_iter.simps)
  also have "\<dots> =
      concat (map (\<lambda>s1. (if length (rest s1) < length (rest st)
                           then plus_iter f n s1 else []) @ [s1]) (f st))"
    using eq by (intro arg_cong [where f = concat] map_cong) auto
  also have "\<dots> = plus_iter f (Suc n) st"
    by (simp only: plus_iter.simps)
  finally show ?case .
qed

lemma matches_Plus_fuel:
  assumes "length (rest st) < n"
  shows "plus_iter (\<lambda>s. matches ic r s) n st = matches ic (Plus r) st"
proof -
  have step: "\<And>m. length (rest st) < m \<Longrightarrow>
      plus_iter (\<lambda>s. matches ic r s) (Suc m) st = plus_iter (\<lambda>s. matches ic r s) m st"
    by (rule plus_iter_fuel) (rule matches_rest)
  have "plus_iter (\<lambda>s. matches ic r s) (Suc (length (rest st)) + k) st
      = plus_iter (\<lambda>s. matches ic r s) (Suc (length (rest st))) st" for k
  proof (induction k)
    case 0
    show ?case by simp
  next
    case (Suc k)
    have "plus_iter (\<lambda>s. matches ic r s) (Suc (Suc (length (rest st)) + k)) st
        = plus_iter (\<lambda>s. matches ic r s) (Suc (length (rest st)) + k) st"
      by (rule step) simp
    then show ?case using Suc by simp
  qed
  from this [of "n - Suc (length (rest st))"] assms show ?thesis by simp
qed

section \<open>Properties of the transcript correction\<close>












lemma long_transcript_words: "length (split_ws long_transcript) = 50"
  by code_simp

lemma split_ws_Nil: "split_ws [] = []"
  by (simp add: split_ws_def)

lemma max_length_bounds: "50 \<le> max_length n \<and> max_length n \<le> 130"
  by (simp add: max_length_def)

lemma min_length_bounds: "min_length n \<le> 30 \<and> min_length n \<le> max_length n \<and> 25 \<le> min_length n"
  using max_length_bounds [of n] by (simp add: min_length_def) linarith



section \<open>Properties of the pipeline\<close>

lemma extraction_fails:
  assumes "write_audiofile e video_path = Failed ex left"
  shows "summarize_video e video_path w =
     (Inr None,
      w\<lparr>files := (if left then insert (py ''temp_audio.wav'') (files w) else files w),
        console := console w @ [Latin (CHR 0x0A) # py ''Starting video processing...'',
                                 Latin (CHR 0x0A) # py ''1. Extracting audio...'',
                                 py ''Audio extraction failed: '' @ str ex],
        calls := calls w @ [ExtractAudio video_path]\<rparr>)"
  using assms by (simp add: summarize_video_def extract_audio_def print_def called_def)

lemma transcription_fails:
  assumes "write_audiofile e video_path = Written"
    and "asr_pipeline e (py ''temp_audio.wav'') = Inl ex"
  shows "summarize_video e video_path w =
     (Inr None,
      w\<lparr>files := files w - {(py ''temp_audio.wav'')},
        console := console w @ [Latin (CHR 0x0A) # py ''Starting video processing...'',
                                 Latin (CHR 0x0A) # py ''1. Extracting audio...'',
                                 Latin (CHR 0x0A) # py ''2. Transcribing audio (this may take a while)...'',
                                 py ''Transcription failed: '' @ str ex],
        calls := calls w @ [ExtractAudio video_path, Transcribe (py ''temp_audio.wav'')]\<rparr>)"
  using assms
  by (simp add: summarize_video_def extract_audio_def transcribe_audio_def os_remove_def
      print_def called_def Let_def)

lemma files_summarize_text: "files (snd (summarize_text e t w)) = files w"
  by (simp add: summarize_text_def Let_def called_def print_def split: sum.splits)

lemma transcription_succeeds:
  assumes "write_audiofile e video_path = Written"
    and "asr_pipeline e (py ''temp_audio.wav'') = Inr raw"
  shows "\<exists>r. fst (summarize_video e video_path w) = Inr r"
    and "files (snd (summarize_video e video_path w)) = files w - {(py ''temp_audio.wav'')}"
  using assms
  by (simp_all add: summarize_video_def extract_audio_def transcribe_audio_def os_remove_def
      print_def called_def Let_def split_beta files_summarize_text)



lemma nbsp_words: "length (split_ws nbsp_text) = 50"
  by code_simp

lemma short_words: "length (split_ws (py ''This is Python. It is open source'')) = 7"
  by code_simp

lemma long_summarize_calls:
  "calls (snd (summarize_text (example_env Written (Inr long_speech) (Inr (py ''the the alphabet'')))
      long_transcript world0)) = [Summarize long_transcript 50 25]"
proof -
  have "long_transcript \<noteq> []"
    using long_transcript_words by (auto simp: split_ws_Nil)
  then show ?thesis
    by (simp add: summarize_text_def long_transcript_words Let_def called_def world0_def
        example_env_def max_length_def min_length_def)
qed




lemma temp_audio_removed_after_extraction:
  assumes "write_audiofile e video_path = Written"
  shows "py ''temp_audio.wav'' \<notin> files (snd (summarize_video e video_path w))"
    and "files (snd (summarize_video e video_path w)) = files w - {py ''temp_audio.wav''}"
    and "\<exists>r. fst (summarize_video e video_path w) = Inr r"
proof -
  have "files (snd (summarize_video e video_path w)) = files w - {py ''temp_audio.wav''}
      \<and> (\<exists>r. fst (summarize_video e video_path w) = Inr r)"
  proof (cases "asr_pipeline e (py ''temp_audio.wav'')")
    case (Inl x)
    show ?thesis by (simp add: transcription_fails [OF assms Inl])
  next
    case (Inr raw)
    show ?thesis using transcription_succeeds [OF assms Inr] by simp
  qed
  then show "files (snd (summarize_video e video_path w)) = files w - {py ''temp_audio.wav''}"
    and "\<exists>r. fst (summarize_video e video_path w) = Inr r"
    and "py ''temp_audio.wav'' \<notin> files (snd (summarize_video e video_path w))"
    by simp_all
qed

text \<open>
  C8.  After a completed extraction the temporary audio file is removed before
  \<open>summarize_video\<close> returns, whether the transcription succeeds or fails
  (\<open>temp_audio_removed_after_extraction\<close>).  When \<open>write_audiofile\<close> raises after it
  has created the file, \<open>extract_audio\<close> returns \<open>None\<close> and \<open>summarize_video\<close> returns at
  once, without \<open>os.remove\<close>: the file created during the run is still there when the
  run ends.
\<close>

theorem temp_audio_left_behind:
  "write_audiofile (example_env (Failed (Exception (py ''No space left on device'')) True)
       (Inr short_speech) (Inr (py ''unused''))) (py ''video.mp4'')
     = Failed (Exception (py ''No space left on device'')) True
   \<and> py ''temp_audio.wav'' \<notin> files world0
   \<and> fst (summarize_video
         (example_env (Failed (Exception (py ''No space left on device'')) True)
            (Inr short_speech) (Inr (py ''unused''))) (py ''video.mp4'') world0) = Inr None
   \<and> py ''temp_audio.wav'' \<in> files (snd (summarize_video
         (example_env (Failed (Exception (py ''No space left on device'')) True)
            (Inr short_speech) (Inr (py ''unused''))) (py ''video.mp4'') world0))
   \<and> calls (snd (summarize_video
         (example_env (Failed (Exception (py ''No space left on device'')) True)
            (Inr short_speech) (Inr (py ''unused''))) (py ''video.mp4'') world0))
       = [ExtractAudio (py ''video.mp4'')]"
proof -
  let ?e = "example_env (Failed (Exception (py ''No space left on device'')) True)
      (Inr short_speech) (Inr (py ''unused''))"
  have h: "write_audiofile ?e (py ''video.mp4'')
      = Failed (Exception (py ''No space left on device'')) True"
    by (simp add: example_env_def)
  note r = extraction_fails [OF h, of world0]
  have f: "fst (summarize_video ?e (py ''video.mp4'') world0) = Inr None"
    by (simp only: r fst_conv)
  have s: "py ''temp_audio.wav'' \<in> files (snd (summarize_video ?e (py ''video.mp4'') world0))"
    by (simp only: r snd_conv) simp
  have c: "calls (snd (summarize_video ?e (py ''video.mp4'') world0))
      = [ExtractAudio (py ''video.mp4'')]"
    by (simp only: r snd_conv) (simp add: world0_def)
  have n: "py ''temp_audio.wav'' \<notin> files world0"
    by (simp add: world0_def)
  show ?thesis
    using h n f s c by blast
qed

text \<open>
  C9.  \<open>summarize_text\<close> returns its text, and leaves the world as it was, when the text
  is empty or has fewer than 50 whitespace-separated words; it calls the summarizer only
  on a text of 50 words or more, and it does call it then.
\<close>

theorem summarize_text_short:
  "(text = [] \<or> length (split_ws text) < 50 \<longrightarrow> summarize_text e text w = (text, w))
   \<and> (calls (snd (summarize_text e text w)) \<noteq> calls w \<longrightarrow> 50 \<le> length (split_ws text))
   \<and> (50 \<le> length (split_ws text) \<longrightarrow>
        (\<exists>mx mn. calls (snd (summarize_text e text w)) = calls w @ [Summarize text mx mn]))"
  by (auto simp: summarize_text_def Let_def called_def print_def split_ws_Nil split: sum.splits)

theorem summarize_text_short_witness:
  "summarize_text (example_env Written (Inr short_speech) (Inr (py ''unused''))) [] world0 = ([], world0)
   \<and> length (split_ws (py ''This is Python. It is open source'')) < 50
   \<and> summarize_text (example_env Written (Inr short_speech) (Inr (py ''unused'')))
        (py ''This is Python. It is open source'') world0
       = ((py ''This is Python. It is open source''), world0)
   \<and> calls (snd (summarize_text (example_env Written (Inr long_speech) (Inr (py ''the the alphabet'')))
        long_transcript world0)) \<noteq> calls world0
   \<and> 50 \<le> length (split_ws long_transcript)
   \<and> 50 \<le> length (split_ws nbsp_text)
   \<and> calls (snd (summarize_text (example_env Written (Inr long_speech) (Inr (py ''the the alphabet'')))
        nbsp_text world0)) \<noteq> calls world0"
proof -
  have n: "50 \<le> length (split_ws nbsp_text)"
    by (simp add: nbsp_words)
  have "\<exists>mx mn. calls (snd (summarize_text
        (example_env Written (Inr long_speech) (Inr (py ''the the alphabet''))) nbsp_text world0))
      = calls world0 @ [Summarize nbsp_text mx mn]"
    using n summarize_text_short [of nbsp_text
        "example_env Written (Inr long_speech) (Inr (py ''the the alphabet''))" world0]
    by blast
  then have c4: "calls (snd (summarize_text
        (example_env Written (Inr long_speech) (Inr (py ''the the alphabet''))) nbsp_text world0))
      \<noteq> calls world0"
    by auto
  let ?e = "example_env Written (Inr short_speech) (Inr (py ''unused''))"
  let ?e' = "example_env Written (Inr long_speech) (Inr (py ''the the alphabet''))"
  let ?t = "(py ''This is Python. It is open source'')"
  have h: "length (split_ws ?t) < 50"
    using short_words by simp
  have c1: "summarize_text ?e [] world0 = ([], world0)"
    using summarize_text_short [of "[]" ?e world0] by blast
  have c2: "summarize_text ?e ?t world0 = (?t, world0)"
    using h summarize_text_short [of ?t ?e world0] by blast
  have l: "50 \<le> length (split_ws long_transcript)"
    by (simp add: long_transcript_words)
  have "\<exists>mx mn. calls (snd (summarize_text ?e' long_transcript world0))
      = calls world0 @ [Summarize long_transcript mx mn]"
    using l summarize_text_short [of long_transcript ?e' world0] by blast
  then have c3: "calls (snd (summarize_text ?e' long_transcript world0)) \<noteq> calls world0"
    by auto
  show ?thesis
    using h c1 c2 c3 l n c4 by blast
qed

text \<open>
  C10.  For every call \<open>Summarize t max_len min_len\<close> that \<open>summarize_text\<close> adds,
  \<open>50 \<le> max_len \<le> 130\<close>, \<open>min_len \<le> 30\<close> and \<open>min_len \<le> max_len\<close>.
\<close>

theorem summarize_text_length_bounds:
  assumes "Summarize t mx mn \<in> set (calls (snd (summarize_text e text w)))"
    and "Summarize t mx mn \<notin> set (calls w)"
  shows "50 \<le> mx \<and> mx \<le> 130 \<and> mn \<le> 30 \<and> mn \<le> mx"
proof -
  let ?n = "int (length (split_ws text))"
  have "mx = max_length ?n \<and> mn = min_length ?n"
    using assms
    by (auto simp: summarize_text_def Let_def called_def print_def split: sum.splits if_splits)
  then show ?thesis
    using max_length_bounds [of ?n] min_length_bounds [of ?n] by simp
qed

theorem summarize_text_length_bounds_witness:
  "Summarize long_transcript 50 25 \<in> set (calls (snd (summarize_text
       (example_env Written (Inr long_speech) (Inr (py ''the the alphabet''))) long_transcript world0)))
   \<and> Summarize long_transcript 50 25 \<notin> set (calls world0)
   \<and> (50::int) \<le> 50 \<and> (50::int) \<le> 130 \<and> (25::int) \<le> 30 \<and> (25::int) \<le> 50"
proof -
  let ?e = "example_env Written (Inr long_speech) (Inr (py ''the the alphabet''))"
  have h1: "Summarize long_transcript 50 25 \<in> set (calls (snd (summarize_text ?e long_transcript world0)))"
    using long_summarize_calls by simp
  have h2: "Summarize long_transcript 50 25 \<notin> set (calls world0)"
    by (simp add: world0_def)
  show ?thesis
    using h1 h2 summarize_text_length_bounds [OF h1 h2] by simp
qed

end
